theory Spec2Isabelle
  imports Complex_Main
begin

section \<open>Exceptions\<close>

text \<open>
  Every raise of the program is a value. \<open>ValueError\<close>, \<open>IndexError\<close> and
  \<open>EOFError\<close> are the built-in exceptions the modelled code can raise by itself;
  \<open>Raised msg\<close> is any exception (a subclass of \<open>Exception\<close>) coming out of an
  external collaborator (yt_dlp, librosa, demucs, the operating system).
\<close>

datatype exn = ValueError | IndexError | EOFError | Raised string

section \<open>The key estimator (\<open>detect_key_and_bpm\<close>, lines 48 to 66)\<close>

text \<open>
  A floating-point number is modelled as the real number it stands for, so the comparisons
  below are those of the code; NaN and the infinities are left out. The arithmetic of numpy
  rounds, and how it rounds is not fixed here: the value that \<open>np.dot\<close> computes from two
  vectors of one length is a parameter \<open>dot\<close> of the estimator.
\<close>

definition major_profile :: "real list" where
  "major_profile = [1, 0, 1, 0, 1, 1, 0, 1, 0, 1, 0, 1]"

definition minor_profile :: "real list" where
  "minor_profile = [1, 0, 1, 1, 0, 1, 0, 1, 1, 0, 1, 0]"

definition keys :: "string list" where
  "keys = [''C'', ''C#'', ''D'', ''D#'', ''E'', ''F'', ''F#'', ''G'', ''G#'', ''A'', ''A#'', ''B'']"

text \<open>\<open>np.roll(a, i)\<close> on a one-dimensional array: the elements move \<open>i\<close> places to the
  right and those pushed out at the end come back at the front.\<close>

definition np_roll :: "'a list \<Rightarrow> nat \<Rightarrow> 'a list" where
  "np_roll a i =
     (if a = [] then []
      else drop (length a - i mod length a) a @ take (length a - i mod length a) a)"

text \<open>\<open>np.dot\<close> of two one-dimensional arrays: the floating-point sum of the products
  as numpy computes it, and a \<open>ValueError\<close> when the shapes differ.\<close>

definition np_dot ::
  "(real list \<Rightarrow> real list \<Rightarrow> real) \<Rightarrow> real list \<Rightarrow> real list \<Rightarrow> exn + real" where
  "np_dot dot a b = (if length a = length b then Inr (dot a b) else Inl ValueError)"

text \<open>A list comprehension whose element expression can raise: the first raise ends it.\<close>

fun comprehension :: "('a \<Rightarrow> exn + 'b) \<Rightarrow> 'a list \<Rightarrow> exn + 'b list" where
  "comprehension f [] = Inr []"
| "comprehension f (x # xs) =
     (case f x of
        Inl e \<Rightarrow> Inl e
      | Inr y \<Rightarrow> (case comprehension f xs of Inl e \<Rightarrow> Inl e | Inr ys \<Rightarrow> Inr (y # ys)))"

text \<open>\<open>[np.dot(np.roll(profile, i), chroma_mean) for i in range(12)]\<close>\<close>

definition scores ::
  "(real list \<Rightarrow> real list \<Rightarrow> real) \<Rightarrow> real list \<Rightarrow> real list \<Rightarrow> exn + real list" where
  "scores dot profile chroma_mean =
     comprehension (\<lambda>i. np_dot dot (np_roll profile i) chroma_mean) [0..<12]"

text \<open>\<open>np.argmax\<close>: the index of the first occurrence of the largest element; the scan
  replaces its candidate only by a strictly larger element. An empty sequence raises.\<close>

fun argmax_scan :: "'a::linorder list \<Rightarrow> nat \<Rightarrow> 'a \<Rightarrow> nat \<Rightarrow> nat" where
  "argmax_scan [] i best besti = besti"
| "argmax_scan (x # xs) i best besti =
     (if best < x then argmax_scan xs (Suc i) x i else argmax_scan xs (Suc i) best besti)"

definition np_argmax :: "'a::linorder list \<Rightarrow> exn + nat" where
  "np_argmax xs = (case xs of [] \<Rightarrow> Inl ValueError | x # rest \<Rightarrow> Inr (argmax_scan rest 1 x 0))"

text \<open>Python's built-in \<open>max\<close> of a list: the largest element, the first one among equals;
  an empty list raises.\<close>

fun max_scan :: "'a::linorder list \<Rightarrow> 'a \<Rightarrow> 'a" where
  "max_scan [] best = best"
| "max_scan (x # xs) best = (if best < x then max_scan xs x else max_scan xs best)"

definition py_max :: "'a::linorder list \<Rightarrow> exn + 'a" where
  "py_max xs = (case xs of [] \<Rightarrow> Inl ValueError | x # rest \<Rightarrow> Inr (max_scan rest x))"

text \<open>\<open>xs[i]\<close> for a non-negative index.\<close>

definition getitem :: "'a list \<Rightarrow> nat \<Rightarrow> exn + 'a" where
  "getitem xs i = (if i < length xs then Inr (xs ! i) else Inl IndexError)"

text \<open>Sequencing of computations that can raise.\<close>

definition bind :: "exn + 'a \<Rightarrow> ('a \<Rightarrow> exn + 'b) \<Rightarrow> exn + 'b" where
  "bind m f = (case m of Inl e \<Rightarrow> Inl e | Inr x \<Rightarrow> f x)"

text \<open>
  Lines 60 to 66: the best rotation of each mode, then the comparison of the two maxima.
  Only the order of the scores matters here, so the scores may be of any linearly ordered
  type.
\<close>

definition decide_key :: "'a::linorder list \<Rightarrow> 'a list \<Rightarrow> exn + string" where
  "decide_key major_scores minor_scores =
     bind (np_argmax major_scores) (\<lambda>best_major.
     bind (np_argmax minor_scores) (\<lambda>best_minor.
     bind (py_max major_scores) (\<lambda>max_major.
     bind (py_max minor_scores) (\<lambda>max_minor.
       if max_minor < max_major
       then bind (getitem keys best_major) (\<lambda>k. Inr (k @ '' major''))
       else bind (getitem keys best_minor) (\<lambda>k. Inr (k @ '' minor''))))))"

text \<open>
  The part of \<open>detect_key_and_bpm\<close> that turns the chroma mean vector into the key label
  (lines 48 to 66): the two score lists, then the decision.
\<close>

definition estimate_key :: "(real list \<Rightarrow> real list \<Rightarrow> real) \<Rightarrow> real list \<Rightarrow> exn + string" where
  "estimate_key dot chroma_mean =
     bind (scores dot major_profile chroma_mean) (\<lambda>major_scores.
     bind (scores dot minor_profile chroma_mean) (\<lambda>minor_scores.
       decide_key major_scores minor_scores))"

text \<open>
  The specification's words: an index is the first maximum of a list when nothing in the
  list is larger and everything before it is smaller; the labels are the twelve pitch
  classes, each in major and in minor.
\<close>

definition first_max :: "'a::linorder list \<Rightarrow> nat \<Rightarrow> bool" where
  "first_max xs i \<longleftrightarrow>
     i < length xs \<and> (\<forall>k<length xs. xs ! k \<le> xs ! i) \<and> (\<forall>k<i. xs ! k < xs ! i)"

definition all_labels :: "string list" where
  "all_labels = map (\<lambda>k. k @ '' major'') keys @ map (\<lambda>k. k @ '' minor'') keys"

text \<open>\<open>str.endswith\<close>\<close>

definition endswith :: "string \<Rightarrow> string \<Rightarrow> bool" where
  "endswith s suffix \<longleftrightarrow>
     length suffix \<le> length s \<and> drop (length s - length suffix) s = suffix"

section \<open>Strings and paths\<close>

text \<open>
  Strings are lists of 8-bit characters; the functions below are Python's on ASCII text.
  \<open>os.path\<close> is \<open>posixpath\<close> (separator \<open>/\<close>).
\<close>

text \<open>\<open>str.lower\<close>: the letters A to Z become a to z.\<close>

definition lower_char :: "char \<Rightarrow> char" where
  "lower_char c =
     (let n = (of_char c :: nat) in if 65 \<le> n \<and> n \<le> 90 then char_of (n + 32) else c)"

definition str_lower :: "string \<Rightarrow> string" where
  "str_lower s = map lower_char s"

text \<open>\<open>str.replace(old, new)\<close>: every occurrence of \<open>old\<close>, found from the left without
  overlap, becomes \<open>new\<close>. The counter is the number of characters of a match still to
  be dropped.\<close>

fun replace_scan :: "string \<Rightarrow> string \<Rightarrow> nat \<Rightarrow> string \<Rightarrow> string" where
  "replace_scan old new k [] = []"
| "replace_scan old new (Suc k) (c # cs) = replace_scan old new k cs"
| "replace_scan old new 0 (c # cs) =
     (if take (length old) (c # cs) = old
      then new @ replace_scan old new (length old - 1) cs
      else c # replace_scan old new 0 cs)"

definition str_replace :: "string \<Rightarrow> string \<Rightarrow> string \<Rightarrow> string" where
  "str_replace s old new =
     (if old = [] then new @ concat (map (\<lambda>c. c # new) s) else replace_scan old new 0 s)"

text \<open>\<open>str(n)\<close> of an integer: decimal digits, with a minus sign when negative.\<close>

fun str_nat :: "nat \<Rightarrow> string" where
  "str_nat n =
     (if n < 10 then [char_of (48 + n)] else str_nat (n div 10) @ [char_of (48 + n mod 10)])"

declare str_nat.simps [simp del]

definition str_int :: "int \<Rightarrow> string" where
  "str_int i = (if i < 0 then CHR ''-'' # str_nat (nat (- i)) else str_nat (nat i))"

text \<open>\<open>int(x)\<close> of a float: the fractional part is dropped (rounding towards zero).\<close>

definition py_int :: "real \<Rightarrow> int" where
  "py_int x = (if 0 \<le> x then \<lfloor>x\<rfloor> else \<lceil>x\<rceil>)"

text \<open>\<open>str.rfind\<close> of one character: the last index where it stands, or \<open>-1\<close>.\<close>

fun rfind :: "string \<Rightarrow> char \<Rightarrow> int" where
  "rfind [] ch = - 1"
| "rfind (c # cs) ch =
     (let r = rfind cs ch in if 0 \<le> r then r + 1 else if c = ch then 0 else - 1)"

text \<open>\<open>str.rstrip\<close> of one character.\<close>

definition rstrip :: "string \<Rightarrow> char \<Rightarrow> string" where
  "rstrip s ch = rev (dropWhile (\<lambda>c. c = ch) (rev s))"

text \<open>\<open>os.path.join(a, b)\<close>\<close>

definition path_join :: "string \<Rightarrow> string \<Rightarrow> string" where
  "path_join a b =
     (if take 1 b = ''/'' \<or> a = [] then b
      else if last a = CHR ''/'' then a @ b
      else a @ ''/'' @ b)"

text \<open>\<open>os.path.basename(p)\<close>\<close>

definition basename :: "string \<Rightarrow> string" where
  "basename p = drop (nat (rfind p CHR ''/'' + 1)) p"

text \<open>\<open>os.path.dirname(p)\<close>\<close>

definition dirname :: "string \<Rightarrow> string" where
  "dirname p =
     (let head = take (nat (rfind p CHR ''/'' + 1)) p
      in if head \<noteq> [] \<and> head \<noteq> replicate (length head) CHR ''/''
         then rstrip head CHR ''/'' else head)"

text \<open>\<open>os.path.splitext(p)\<close>: the extension starts at the last dot of the last path
  component, unless only dots stand before it in that component.\<close>

definition splitext :: "string \<Rightarrow> string \<times> string" where
  "splitext p =
     (let sepIndex = rfind p CHR ''/''; dotIndex = rfind p CHR ''.''
      in if sepIndex < dotIndex \<and>
            list_ex (\<lambda>k. p ! k \<noteq> CHR ''.'') [nat (sepIndex + 1)..<nat dotIndex]
         then (take (nat dotIndex) p, drop (nat dotIndex) p)
         else (p, []))"

section \<open>Output naming (\<open>main\<close>, lines 126 to 131)\<close>

text \<open>\<open>os.path.splitext(os.path.basename(input_path))[0]\<close>\<close>

definition song_title_of :: "string \<Rightarrow> string" where
  "song_title_of input_path = fst (splitext (basename input_path))"

text \<open>\<open>f"{song_title}_{key}_{int(bpm)}"\<close>\<close>

definition folder_name :: "string \<Rightarrow> string \<Rightarrow> real \<Rightarrow> string" where
  "folder_name song_title key bpm = song_title @ ''_'' @ key @ ''_'' @ str_int (py_int bpm)"

section \<open>The outside world\<close>

text \<open>
  The program talks to an operator, a file system and three libraries. What it prints and
  which external calls it makes are recorded, in order, in a trace; the rest of the world
  (files, directories, devices) is a state of type \<open>'w\<close> that only the external calls
  read and change.
\<close>

type_synonym audio = "real list list"

datatype message =
    Splitting string
  | Saved string string
  | ErrorSaving string exn
  | Cwd string
  | OutputFolder string
  | FilePath string
  | FilePathExists bool
  | FilePathWritable bool
  | SplittingCompleted
  | ErrorDownloading
  | Detected string real

datatype event =
    Input string
  | Print message
  | ExtractInfo string string
  | MakeDirs string
  | Load string
  | Separate string string
  | SaveAudio audio string nat

text \<open>
  The external collaborators. \<open>ydl_extract url outtmpl\<close> is \<open>ydl.extract_info(url,
  download=True)\<close> followed by \<open>ydl.prepare_filename(result)\<close> under the options of
  \<open>download_audio\<close>; \<open>separate_audio_file device path\<close> is the construction of the
  \<open>Separator\<close> on that device followed by its \<open>separate_audio_file\<close>, giving the stems in
  the order of \<open>sources.items()\<close> and the separator's sample rate; \<open>os_access_w\<close> is
  \<open>os.access(path, os.W_OK)\<close>. The estimators of librosa are given the world besides the
  waveform: nothing here says that they are functions of the waveform alone.
  \<open>numpy_dot\<close> and \<open>numpy_mean\<close> are the floating-point dot product and mean of numpy.

  What can raise: every call of yt_dlp, librosa and demucs, \<open>os.makedirs\<close>,
  \<open>os.getcwd\<close> (the working directory may be gone) and \<open>os.access\<close>.
  \<open>os.path.exists\<close> does not raise on a string: it answers \<open>False\<close> where \<open>os.stat\<close>
  fails. Standard input and output are taken to work: \<open>print\<close> does not raise, and
  \<open>input\<close> raises only at the end of the input. Exceptions that are not instances of
  \<open>Exception\<close> (a keyboard interrupt) are left out.
\<close>

record 'w env =
  ydl_extract :: "string \<Rightarrow> string \<Rightarrow> 'w \<Rightarrow> (exn + string) \<times> 'w"
  os_path_exists :: "string \<Rightarrow> 'w \<Rightarrow> bool"
  os_makedirs :: "string \<Rightarrow> 'w \<Rightarrow> (exn + unit) \<times> 'w"
  os_getcwd :: "'w \<Rightarrow> exn + string"
  os_access_w :: "string \<Rightarrow> 'w \<Rightarrow> exn + bool"
  librosa_load :: "string \<Rightarrow> 'w \<Rightarrow> exn + real list \<times> nat"
  librosa_beat_track :: "real list \<Rightarrow> nat \<Rightarrow> 'w \<Rightarrow> exn + real"
  librosa_chroma_stft :: "real list \<Rightarrow> nat \<Rightarrow> 'w \<Rightarrow> exn + real list list"
  numpy_mean :: "real list \<Rightarrow> real"
  numpy_dot :: "real list \<Rightarrow> real list \<Rightarrow> real"
  cuda_is_available :: "'w \<Rightarrow> bool"
  separate_audio_file :: "string \<Rightarrow> string \<Rightarrow> 'w \<Rightarrow> (exn + (string \<times> audio) list \<times> nat) \<times> 'w"
  save_audio :: "audio \<Rightarrow> string \<Rightarrow> nat \<Rightarrow> 'w \<Rightarrow> (exn + unit) \<times> 'w"

type_synonym 'w state = "event list \<times> 'w"

section \<open>\<open>download_audio\<close>\<close>

definition download_audio ::
  "'w env \<Rightarrow> string \<Rightarrow> string \<Rightarrow> 'w state \<Rightarrow> (exn + string) \<times> 'w state" where
  "download_audio env url download_folder s =
     (let output_template = path_join download_folder ''%(title)s.%(ext)s'';
          tr = fst s @ [ExtractInfo url output_template]
      in case ydl_extract env url output_template (snd s) of
           (Inl e, w) \<Rightarrow> (Inl e, (tr, w))
         | (Inr filename, w) \<Rightarrow>
             (Inr (str_replace (str_replace filename ''.webm'' ''.mp3'') ''.m4a'' ''.mp3''),
              (tr, w)))"

section \<open>\<open>detect_key_and_bpm\<close>\<close>

text \<open>\<open>np.mean(chroma, axis=1)\<close>: the floating-point mean of every row of the chroma
  matrix (one row per pitch class, one column per frame), \<open>mean\<close> being the mean of one
  row as numpy computes it.\<close>

definition np_mean_axis1 :: "(real list \<Rightarrow> real) \<Rightarrow> real list list \<Rightarrow> real list" where
  "np_mean_axis1 mean chroma = map mean chroma"

text \<open>The body of \<open>detect_key_and_bpm\<close> after the file is loaded (lines 41 to 68).\<close>

definition analyse :: "'w env \<Rightarrow> real list \<Rightarrow> nat \<Rightarrow> 'w \<Rightarrow> exn + string \<times> real" where
  "analyse env y sr w =
     bind (librosa_beat_track env y sr w) (\<lambda>tempo.
     bind (librosa_chroma_stft env y sr w) (\<lambda>chroma.
     bind (estimate_key (numpy_dot env) (np_mean_axis1 (numpy_mean env) chroma)) (\<lambda>key.
       Inr (key, tempo))))"

definition detect_key_and_bpm ::
  "'w env \<Rightarrow> string \<Rightarrow> 'w state \<Rightarrow> (exn + string \<times> real) \<times> 'w state" where
  "detect_key_and_bpm env input_path s =
     (bind (librosa_load env input_path (snd s)) (\<lambda>(y, sr). analyse env y sr (snd s)),
      (fst s @ [Load input_path], snd s))"

section \<open>\<open>split_audio\<close>\<close>

text \<open>
  The loop over \<open>sources.items()\<close> (lines 87 to 98): one guarded \<open>save_audio\<close> per
  stem. The handler runs in the world the failed write has left; its calls of
  \<open>os.getcwd\<close> and \<open>os.access\<close> are not guarded, so an exception of theirs leaves the
  loop, after the lines printed before it.
\<close>

fun save_stems ::
  "'w env \<Rightarrow> string \<Rightarrow> nat \<Rightarrow> (string \<times> audio) list \<Rightarrow> 'w state
     \<Rightarrow> (exn + unit) \<times> 'w state" where
  "save_stems env output_folder samplerate [] s = (Inr (), s)"
| "save_stems env output_folder samplerate ((source, audio) # rest) s =
     (let out = path_join output_folder (source @ ''.wav'');
          tr = fst s @ [SaveAudio audio out samplerate]
      in case save_audio env audio out samplerate (snd s) of
           (Inr u, w) \<Rightarrow>
             save_stems env output_folder samplerate rest (tr @ [Print (Saved source out)], w)
         | (Inl e, w) \<Rightarrow>
             (case os_getcwd env w of
                Inl e1 \<Rightarrow> (Inl e1, (tr @ [Print (ErrorSaving source e)], w))
              | Inr cwd \<Rightarrow>
                  (case os_access_w env (dirname out) w of
                     Inl e2 \<Rightarrow>
                       (Inl e2,
                        (tr @ [Print (ErrorSaving source e),
                               Print (Cwd cwd),
                               Print (OutputFolder output_folder),
                               Print (FilePath out),
                               Print (FilePathExists (os_path_exists env (dirname out) w))],
                         w))
                   | Inr writable \<Rightarrow>
                       save_stems env output_folder samplerate rest
                         (tr @ [Print (ErrorSaving source e),
                                Print (Cwd cwd),
                                Print (OutputFolder output_folder),
                                Print (FilePath out),
                                Print (FilePathExists (os_path_exists env (dirname out) w)),
                                Print (FilePathWritable writable)], w))))"

definition split_audio ::
  "'w env \<Rightarrow> string \<Rightarrow> string \<Rightarrow> 'w state \<Rightarrow> (exn + unit) \<times> 'w state" where
  "split_audio env input_path output_folder s =
     (let device = (if cuda_is_available env (snd s) then ''cuda'' else ''cpu'');
          tr = fst s @ [Print (Splitting input_path), Separate device input_path]
      in case separate_audio_file env device input_path (snd s) of
           (Inl e, w) \<Rightarrow> (Inl e, (tr, w))
         | (Inr (sources, samplerate), w) \<Rightarrow>
             (case os_makedirs env output_folder w of
                (Inl e, w') \<Rightarrow> (Inl e, (tr @ [MakeDirs output_folder], w'))
              | (Inr u, w') \<Rightarrow>
                  (case save_stems env output_folder samplerate sources
                          (tr @ [MakeDirs output_folder], w') of
                     (Inl e, s') \<Rightarrow> (Inl e, s')
                   | (Inr u', s') \<Rightarrow>
                       (Inr (), (fst s' @ [Print SplittingCompleted], snd s')))))"

section \<open>\<open>main\<close>\<close>

definition download_folder :: string where
  "download_folder = ''inputs''"

definition output_folder :: string where
  "output_folder = ''outputs''"

definition prompt :: string where
  "prompt = ''Enter YouTube URL (or type 'exit' to quit): ''"

text \<open>
  The \<open>while True\<close> loop. The operator's lines are the list \<open>inputs\<close>; \<open>input\<close> raises
  \<open>EOFError\<close> once they are used up, so the recursion follows the list. A result \<open>Inr ()\<close>
  is the \<open>break\<close>; a result \<open>Inl e\<close> is the exception \<open>e\<close> leaving the loop.
\<close>

fun main_loop :: "'w env \<Rightarrow> string list \<Rightarrow> 'w state \<Rightarrow> (exn + unit) \<times> 'w state" where
  "main_loop env [] s = (Inl EOFError, (fst s @ [Input prompt], snd s))"
| "main_loop env (url # inputs) s =
     (if str_lower url = ''exit'' then (Inr (), (fst s @ [Input prompt], snd s))
      else
        case download_audio env url download_folder (fst s @ [Input prompt], snd s) of
          (Inl e, s1) \<Rightarrow> (Inl e, s1)
        | (Inr input_path, s1) \<Rightarrow>
            if \<not> os_path_exists env input_path (snd s1)
            then main_loop env inputs (fst s1 @ [Print ErrorDownloading], snd s1)
            else
              case detect_key_and_bpm env input_path s1 of
                (Inl e, s2) \<Rightarrow> (Inl e, s2)
              | (Inr (key, bpm), s2) \<Rightarrow>
                  (let new_output_folder =
                         path_join output_folder
                           (folder_name (song_title_of input_path) key bpm)
                   in case os_makedirs env new_output_folder (snd s2) of
                        (Inl e, w) \<Rightarrow>
                          (Inl e, (fst s2 @ [Print (Detected key bpm),
                                             MakeDirs new_output_folder], w))
                      | (Inr u, w) \<Rightarrow>
                          (case split_audio env input_path new_output_folder
                                  (fst s2 @ [Print (Detected key bpm),
                                             MakeDirs new_output_folder], w) of
                             (Inl e, s3) \<Rightarrow> (Inl e, s3)
                           | (Inr u', s3) \<Rightarrow> main_loop env inputs s3)))"

text \<open>\<open>main\<close>: the two root directories are created, then the loop runs.\<close>

definition main :: "'w env \<Rightarrow> string list \<Rightarrow> 'w state \<Rightarrow> (exn + unit) \<times> 'w state" where
  "main env inputs s =
     (case os_makedirs env download_folder (snd s) of
        (Inl e, w) \<Rightarrow> (Inl e, (fst s @ [MakeDirs download_folder], w))
      | (Inr u, w) \<Rightarrow>
          (case os_makedirs env output_folder w of
             (Inl e, w') \<Rightarrow>
               (Inl e, (fst s @ [MakeDirs download_folder, MakeDirs output_folder], w'))
           | (Inr u', w') \<Rightarrow>
               main_loop env inputs
                 (fst s @ [MakeDirs download_folder, MakeDirs output_folder], w')))"

section \<open>Reading traces, and an example world\<close>

text \<open>The calls of \<open>save_audio\<close> in a trace, and the prompts for input in it.\<close>

fun is_save :: "event \<Rightarrow> bool" where
  "is_save (SaveAudio audio out samplerate) = True"
| "is_save e = False"

fun is_input :: "event \<Rightarrow> bool" where
  "is_input (Input p) = True"
| "is_input e = False"

text \<open>
  Arithmetic without rounding, for the examples: where every product and every partial sum
  is an integer of small size, or the two summands of a mean are equal, floating-point
  arithmetic does not round, and numpy computes these values.
\<close>

definition dot_exact :: "real list \<Rightarrow> real list \<Rightarrow> real" where
  "dot_exact a b = sum_list (map2 (*) a b)"

definition mean_exact :: "real list \<Rightarrow> real" where
  "mean_exact row = sum_list row / real (length row)"

text \<open>
  A world in which every external call succeeds, except that writing \<open>drums.wav\<close> fails:
  the download is a WebM file of title \<open>Track\<close>, the chroma has its energy on the pitch
  classes C, E, F, A and B, the tempo is 95.4, and the separator gives four stems.
\<close>

definition example_world :: "unit env" where
  "example_world =
     \<lparr> ydl_extract = (\<lambda>url outtmpl w. (Inr ''inputs/Track.webm'', w)),
       os_path_exists = (\<lambda>path w. True),
       os_makedirs = (\<lambda>path w. (Inr (), w)),
       os_getcwd = (\<lambda>w. Inr ''/home/user''),
       os_access_w = (\<lambda>path w. Inr False),
       librosa_load = (\<lambda>path w. Inr ([0, 1], 22050)),
       librosa_beat_track = (\<lambda>y sr w. Inr (954 / 10)),
       librosa_chroma_stft =
         (\<lambda>y sr w. Inr (map (\<lambda>x. [x, x]) [1, 0, 0, 0, 1, 1, 0, 0, 0, 1, 0, 1])),
       numpy_mean = mean_exact,
       numpy_dot = dot_exact,
       cuda_is_available = (\<lambda>w. False),
       separate_audio_file =
         (\<lambda>device path w.
            (Inr ([(''vocals'', []), (''drums'', []), (''bass'', []), (''other'', [])], 44100), w)),
       save_audio =
         (\<lambda>audio out samplerate w.
            (if basename out = ''drums.wav'' then Inl (Raised ''disk full'') else Inr (), w)) \<rparr>"

text \<open>
  The same world after the working directory has been removed while the stems are
  written: \<open>vocals.wav\<close> is written, every later write fails, and \<open>os.getcwd\<close> raises
  \<open>FileNotFoundError\<close>.
\<close>

definition removed_cwd_world :: "unit env" where
  "removed_cwd_world =
     example_world
       \<lparr> os_getcwd := (\<lambda>w. Inl (Raised ''FileNotFoundError'')),
         save_audio :=
           (\<lambda>audio out samplerate w.
              (if basename out = ''vocals.wav'' then Inr ()
               else Inl (Raised ''FileNotFoundError''), w)) \<rparr>"
section \<open>Facts about the key estimator\<close>

lemma comprehension_Inr:
  "(\<And>x. x \<in> set xs \<Longrightarrow> f x = Inr (g x)) \<Longrightarrow> comprehension f xs = Inr (map g xs)"
  by (induction xs) auto

lemma length_np_roll: "length (np_roll a i) = length a"
  by (simp add: np_roll_def)

lemma mod_shift_low: "j < m \<Longrightarrow> m < n \<Longrightarrow> (j + n - m) mod n = n - m + (j::nat)"
  by simp

lemma mod_shift_high:
  assumes "\<not> j < m" "m < n" "j < n"
  shows "(j + n - m) mod n = j - (m::nat)"
proof -
  have e: "j + n - m = (j - m) + n" using assms by linarith
  have "((j - m) + n) mod n = j - m" using assms by (simp del: add_diff_assoc add_diff_assoc2)
  then show ?thesis unfolding e .
qed

lemma np_roll_nth:
  assumes "j < length a"
  shows "np_roll a i ! j = a ! ((j + length a - i mod length a) mod length a)"
proof -
  define n where "n = length a"
  define m where "m = i mod n"
  have n: "0 < n" "j < n" using assms by (auto simp: n_def)
  have m: "m < n" using n by (simp add: m_def)
  have a: "a \<noteq> []" using assms by auto
  have roll: "np_roll a i = drop (n - m) a @ take (n - m) a"
    unfolding np_roll_def n_def m_def using a by simp
  have len: "length (drop (n - m) a) = m" using m by (simp add: n_def)
  show ?thesis
  proof (cases "j < m")
    case True
    have "(drop (n - m) a @ take (n - m) a) ! j = drop (n - m) a ! j"
      using True len by (simp add: nth_append)
    also have "\<dots> = a ! (n - m + j)"
      using True m by (simp add: n_def)
    finally have "np_roll a i ! j = a ! (n - m + j)" using roll by simp
    moreover have "(j + n - m) mod n = n - m + j"
      using True m by (rule mod_shift_low)
    ultimately show ?thesis unfolding n_def[symmetric] m_def[symmetric] by simp
  next
    case False
    have "(drop (n - m) a @ take (n - m) a) ! j = take (n - m) a ! (j - m)"
      using False len by (simp add: nth_append)
    also have "\<dots> = a ! (j - m)"
      using False m n by simp
    finally have "np_roll a i ! j = a ! (j - m)" using roll by simp
    moreover have "(j + n - m) mod n = j - m"
      using False m n(2) by (rule mod_shift_high)
    ultimately show ?thesis unfolding n_def[symmetric] m_def[symmetric] by simp
  qed
qed

lemma comprehension_length:
  "comprehension f xs = Inr ys \<Longrightarrow> length ys = length xs"
proof (induction xs arbitrary: ys)
  case Nil
  then show ?case by simp
next
  case (Cons x xs)
  then show ?case by (auto split: sum.splits)
qed

lemma scores_eq:
  assumes "length profile = 12" "length chroma_mean = 12"
  shows "scores dot profile chroma_mean =
           Inr (map (\<lambda>i. dot (np_roll profile i) chroma_mean) [0..<12])"
  unfolding scores_def
  by (rule comprehension_Inr) (simp add: np_dot_def length_np_roll assms)

lemma scores_length:
  assumes "scores dot profile chroma_mean = Inr xs"
  shows "length xs = 12"
  using comprehension_length [OF assms [unfolded scores_def]] by simp

lemma scores_wrong_length:
  assumes "length profile = 12" "length chroma_mean \<noteq> 12"
  shows "scores dot profile chroma_mean = Inl ValueError"
proof -
  have "[0..<12] = 0 # [1..<12]" by (simp add: upt_conv_Cons)
  then show ?thesis
    using assms by (simp add: scores_def np_dot_def length_np_roll)
qed

lemma argmax_scan_first_max:
  assumes "length pre = i" "besti < i" "pre ! besti = best"
    and "\<forall>k<i. pre ! k \<le> best" "\<forall>k<besti. pre ! k < best"
  shows "first_max (pre @ xs) (argmax_scan xs i best besti)"
  using assms
proof (induction xs arbitrary: pre i best besti)
  case Nil
  then show ?case by (simp add: first_max_def)
next
  case (Cons x xs)
  let ?pre = "pre @ [x]"
  show ?case
  proof (cases "best < x")
    case True
    have "first_max (?pre @ xs) (argmax_scan xs (Suc i) x i)"
    proof (rule Cons.IH)
      show "length ?pre = Suc i" using Cons.prems by simp
      show "i < Suc i" by simp
      show "?pre ! i = x" using Cons.prems by (simp add: nth_append)
      show "\<forall>k<Suc i. ?pre ! k \<le> x"
        using Cons.prems True by (auto simp: nth_append less_Suc_eq dest: order.strict_implies_order)
      show "\<forall>k<i. ?pre ! k < x"
        using Cons.prems True by (auto simp: nth_append)
    qed
    then show ?thesis using True by simp
  next
    case False
    have "first_max (?pre @ xs) (argmax_scan xs (Suc i) best besti)"
    proof (rule Cons.IH)
      show "length ?pre = Suc i" using Cons.prems by simp
      show "besti < Suc i" using Cons.prems by simp
      show "?pre ! besti = best" using Cons.prems by (simp add: nth_append)
      show "\<forall>k<Suc i. ?pre ! k \<le> best"
        using Cons.prems False by (auto simp: nth_append less_Suc_eq)
      show "\<forall>k<besti. ?pre ! k < best"
        using Cons.prems by (auto simp: nth_append)
    qed
    then show ?thesis using False by simp
  qed
qed

lemma np_argmax_first_max:
  assumes "xs \<noteq> []"
  shows "\<exists>i. np_argmax xs = Inr i \<and> first_max xs i"
proof -
  obtain x rest where xs: "xs = x # rest" using assms by (cases xs) auto
  have "first_max ([x] @ rest) (argmax_scan rest 1 x 0)"
    by (rule argmax_scan_first_max) auto
  then show ?thesis by (simp add: xs np_argmax_def)
qed

lemma first_max_unique:
  assumes "first_max xs i" "first_max xs j"
  shows "i = j"
proof (rule ccontr)
  assume "i \<noteq> j"
  then consider "i < j" | "j < i" by linarith
  then show False
  proof cases
    case 1
    then have "xs ! i < xs ! j" using assms(2) by (simp add: first_max_def)
    moreover have "xs ! j \<le> xs ! i" using assms by (simp add: first_max_def)
    ultimately show False by simp
  next
    case 2
    then have "xs ! j < xs ! i" using assms(1) by (simp add: first_max_def)
    moreover have "xs ! i \<le> xs ! j" using assms by (simp add: first_max_def)
    ultimately show False by simp
  qed
qed

lemma max_scan_bounds:
  "max_scan xs best \<in> set (best # xs) \<and> (\<forall>y\<in>set (best # xs). y \<le> max_scan xs best)"
proof (induction xs arbitrary: best)
  case Nil
  show ?case by simp
next
  case (Cons x xs)
  show ?case
  proof (cases "best < x")
    case True
    then show ?thesis using Cons.IH [of x] by auto
  next
    case False
    then show ?thesis using Cons.IH [of best] by auto
  qed
qed

lemma py_max_first_max:
  assumes "first_max xs i"
  shows "py_max xs = Inr (xs ! i)"
proof -
  have i: "i < length xs" using assms by (simp add: first_max_def)
  then obtain x rest where xs: "xs = x # rest" by (cases xs) auto
  let ?m = "max_scan rest x"
  have m: "?m \<in> set xs" "\<forall>y\<in>set xs. y \<le> ?m"
    using max_scan_bounds [of rest x] by (simp_all add: xs)
  have "xs ! i \<le> ?m" using m(2) i by simp
  moreover have "?m \<le> xs ! i"
  proof -
    obtain k where "k < length xs" "xs ! k = ?m" using m(1) by (auto simp: in_set_conv_nth)
    then show ?thesis using assms by (auto simp: first_max_def)
  qed
  ultimately have "?m = xs ! i" by simp
  then show ?thesis by (simp add: py_max_def xs)
qed

lemma decide_key_first_max:
  assumes "first_max major_scores i" "first_max minor_scores j"
    and "length major_scores = 12" "length minor_scores = 12"
  shows "decide_key major_scores minor_scores =
           Inr (if minor_scores ! j < major_scores ! i
                then keys ! i @ '' major'' else keys ! j @ '' minor'')"
proof -
  have ne: "major_scores \<noteq> []" "minor_scores \<noteq> []" using assms by auto
  obtain i' where i': "np_argmax major_scores = Inr i'" "first_max major_scores i'"
    using np_argmax_first_max [OF ne(1)] by blast
  obtain j' where j': "np_argmax minor_scores = Inr j'" "first_max minor_scores j'"
    using np_argmax_first_max [OF ne(2)] by blast
  have eq: "i' = i" "j' = j"
    using first_max_unique i'(2) j'(2) assms(1,2) by blast+
  have lt: "i < 12" "j < 12" using assms by (simp_all add: first_max_def)
  have len: "length keys = 12" by (simp add: keys_def)
  show ?thesis
    using i'(1) j'(1) eq lt len py_max_first_max [OF assms(1)] py_max_first_max [OF assms(2)]
    by (simp add: decide_key_def bind_def getitem_def)
qed

lemma endswith_minor:
  "endswith (k @ '' minor'') ''minor'' \<and> \<not> endswith (k @ '' minor'') ''major''"
  by (simp add: endswith_def)

lemma label_in_all_labels:
  assumes "i < 12"
  shows "keys ! i @ '' major'' \<in> set all_labels" "keys ! i @ '' minor'' \<in> set all_labels"
proof -
  have "length keys = 12" by (simp add: keys_def)
  then have "keys ! i \<in> set keys" using assms by (metis nth_mem)
  then show "keys ! i @ '' major'' \<in> set all_labels" "keys ! i @ '' minor'' \<in> set all_labels"
    by (auto simp: all_labels_def)
qed

lemma distinct_all_labels: "distinct all_labels \<and> length all_labels = 24"
  by (simp add: all_labels_def keys_def)

lemma first_max_lowest:
  assumes "first_max xs i"
  shows "i < length xs"
    and "\<forall>k<length xs. xs ! k \<le> xs ! i"
    and "\<forall>k<length xs. xs ! k = xs ! i \<longrightarrow> i \<le> k"
proof -
  show "i < length xs" "\<forall>k<length xs. xs ! k \<le> xs ! i"
    using assms by (simp_all add: first_max_def)
  show "\<forall>k<length xs. xs ! k = xs ! i \<longrightarrow> i \<le> k"
  proof (intro allI impI)
    fix k assume "k < length xs" and e: "xs ! k = xs ! i"
    show "i \<le> k"
    proof (rule ccontr)
      assume "\<not> i \<le> k"
      then have "k < i" by simp
      then have "xs ! k < xs ! i" using assms by (simp add: first_max_def)
      then show False using e by simp
    qed
  qed
qed

lemma estimate_key_decide:
  assumes "scores dot major_profile chroma_mean = Inr major_scores"
    and "scores dot minor_profile chroma_mean = Inr minor_scores"
  shows "estimate_key dot chroma_mean = decide_key major_scores minor_scores"
  using assms by (simp add: estimate_key_def bind_def)

lemma estimate_key_scores:
  assumes "scores dot major_profile chroma_mean = Inr major_scores"
    and "scores dot minor_profile chroma_mean = Inr minor_scores"
  shows "\<exists>i j. np_argmax major_scores = Inr i \<and> first_max major_scores i
           \<and> np_argmax minor_scores = Inr j \<and> first_max minor_scores j
           \<and> estimate_key dot chroma_mean =
               Inr (if minor_scores ! j < major_scores ! i
                    then keys ! i @ '' major'' else keys ! j @ '' minor'')"
proof -
  have len: "length major_scores = 12" "length minor_scores = 12"
    using assms scores_length by blast+
  then have ne: "major_scores \<noteq> []" "minor_scores \<noteq> []" by auto
  obtain i where i: "np_argmax major_scores = Inr i" "first_max major_scores i"
    using np_argmax_first_max [OF ne(1)] by blast
  obtain j where j: "np_argmax minor_scores = Inr j" "first_max minor_scores j"
    using np_argmax_first_max [OF ne(2)] by blast
  have "estimate_key dot chroma_mean =
          Inr (if minor_scores ! j < major_scores ! i
               then keys ! i @ '' major'' else keys ! j @ '' minor'')"
    using estimate_key_decide [OF assms] decide_key_first_max [OF i(2) j(2) len] by simp
  then show ?thesis using i j by blast
qed

text \<open>
  Scaling, in exact arithmetic. With \<open>dot_exact\<close> every score of \<open>s * chroma_mean\<close> is
  \<open>s\<close> times the score of \<open>chroma_mean\<close>, so for a positive \<open>s\<close> the first maxima and the
  comparison of the two modes stay as they are. This is a fact about the real numbers
  only: the rounding, underflow and overflow of numpy's floating-point numbers are
  outside it.
\<close>

lemma dot_exact_scale: "dot_exact a (map ((*) s) c) = s * dot_exact a c"
  unfolding dot_exact_def
proof (induction a arbitrary: c)
  case Nil
  show ?case by simp
next
  case (Cons x a)
  show ?case
  proof (cases c)
    case Nil
    then show ?thesis by simp
  next
    case (Cons y c')
    then show ?thesis using Cons.IH [of c'] by (simp add: algebra_simps)
  qed
qed

lemma first_max_scale:
  fixes xs :: "real list"
  assumes "0 < s"
  shows "first_max (map ((*) s) xs) i \<longleftrightarrow> first_max xs i"
proof -
  have "\<And>k. k < length xs \<Longrightarrow> map ((*) s) xs ! k = s * xs ! k" by simp
  then show ?thesis
    using assms by (auto simp add: first_max_def)
qed

lemma estimate_key_scale_exact:
  assumes "0 < s"
  shows "estimate_key dot_exact (map ((*) s) chroma_mean) = estimate_key dot_exact chroma_mean"
proof (cases "length chroma_mean = 12")
  case True
  let ?M = "map (\<lambda>i. dot_exact (np_roll major_profile i) chroma_mean) [0..<12]"
  let ?m = "map (\<lambda>i. dot_exact (np_roll minor_profile i) chroma_mean) [0..<12]"
  have lp: "length major_profile = 12" "length minor_profile = 12"
    by (simp_all add: major_profile_def minor_profile_def)
  have len: "length (map ((*) s) chroma_mean) = 12" using True by simp
  have M: "scores dot_exact major_profile chroma_mean = Inr ?M"
    by (rule scores_eq [OF lp(1) True])
  have m: "scores dot_exact minor_profile chroma_mean = Inr ?m"
    by (rule scores_eq [OF lp(2) True])
  have M': "scores dot_exact major_profile (map ((*) s) chroma_mean) = Inr (map ((*) s) ?M)"
    using scores_eq [OF lp(1) len, of dot_exact] by (simp add: dot_exact_scale del: upt_Suc)
  have m': "scores dot_exact minor_profile (map ((*) s) chroma_mean) = Inr (map ((*) s) ?m)"
    using scores_eq [OF lp(2) len, of dot_exact] by (simp add: dot_exact_scale del: upt_Suc)
  obtain i j where ij: "first_max ?M i" "first_max ?m j"
    and a: "estimate_key dot_exact chroma_mean =
              Inr (if ?m ! j < ?M ! i then keys ! i @ '' major'' else keys ! j @ '' minor'')"
    using estimate_key_scores [OF M m] by blast
  have lt: "i < length ?M" "j < length ?m" using ij by (simp_all add: first_max_def)
  have ij': "first_max (map ((*) s) ?M) i" "first_max (map ((*) s) ?m) j"
    using ij first_max_scale [OF assms] by blast+
  have l12: "length (map ((*) s) ?M) = 12" "length (map ((*) s) ?m) = 12" by simp_all
  have b: "estimate_key dot_exact (map ((*) s) chroma_mean) =
             Inr (if map ((*) s) ?m ! j < map ((*) s) ?M ! i
                  then keys ! i @ '' major'' else keys ! j @ '' minor'')"
    using estimate_key_decide [OF M' m'] decide_key_first_max [OF ij' l12] by simp
  have c: "map ((*) s) ?m ! j < map ((*) s) ?M ! i \<longleftrightarrow> ?m ! j < ?M ! i"
    using lt assms by (simp only: nth_map mult_less_cancel_left_pos)
  show ?thesis unfolding a b c ..
next
  case False
  then have "length (map ((*) s) chroma_mean) \<noteq> 12" by simp
  then show ?thesis
    using False scores_wrong_length [of major_profile]
    by (simp add: estimate_key_def bind_def major_profile_def)
qed
section \<open>The claims about the key estimator\<close>

text \<open>
  Claim C1, as the code has it. The comparison of line 63 is strict, so when the largest
  major score and the largest minor score are exactly equal the \<open>else\<close> branch runs:
  the label is the pitch class of the best minor rotation followed by \<open>minor\<close>, and it
  does not end in \<open>major\<close>. This holds of the score lists as they are computed, whatever
  the rounding of \<open>np.dot\<close> is.
\<close>

theorem estimate_key_tie_is_minor:
  assumes "length chroma_mean = 12"
    and "scores dot major_profile chroma_mean = Inr major_scores"
    and "scores dot minor_profile chroma_mean = Inr minor_scores"
    and "py_max major_scores = py_max minor_scores"
  shows "\<exists>j<12. first_max minor_scores j
           \<and> estimate_key dot chroma_mean = Inr (keys ! j @ '' minor'')
           \<and> endswith (keys ! j @ '' minor'') ''minor''
           \<and> \<not> endswith (keys ! j @ '' minor'') ''major''"
proof -
  obtain i j where i: "first_max major_scores i" and j: "first_max minor_scores j"
    and ek: "estimate_key dot chroma_mean =
               Inr (if minor_scores ! j < major_scores ! i
                    then keys ! i @ '' major'' else keys ! j @ '' minor'')"
    using estimate_key_scores [OF assms(2,3)] by blast
  have "length minor_scores = 12" using assms(3) by (rule scores_length)
  then have lt: "j < 12" using j by (simp add: first_max_def)
  have "(Inr (major_scores ! i) :: exn + real) = Inr (minor_scores ! j)"
    using assms(4) py_max_first_max [OF i] py_max_first_max [OF j] by simp
  then have "major_scores ! i = minor_scores ! j" by simp
  then have "estimate_key dot chroma_mean = Inr (keys ! j @ '' minor'')"
    using ek by simp
  then show ?thesis using j lt endswith_minor by blast
qed

theorem estimate_key_tie_is_minor_witness:
  "\<exists>j<12. first_max [0, 0, 0, 0, 0, 0, 0, 0, 0, 0, 0, 0 :: real] j
     \<and> estimate_key dot_exact [0, 0, 0, 0, 0, 0, 0, 0, 0, 0, 0, 0] = Inr (keys ! j @ '' minor'')
     \<and> endswith (keys ! j @ '' minor'') ''minor''
     \<and> \<not> endswith (keys ! j @ '' minor'') ''major''"
proof -
  let ?c = "[0, 0, 0, 0, 0, 0, 0, 0, 0, 0, 0, 0 :: real]"
  have h1: "length ?c = 12" by simp
  have h2: "scores dot_exact major_profile ?c = Inr ?c" by code_simp
  have h3: "scores dot_exact minor_profile ?c = Inr ?c" by code_simp
  have h4: "py_max ?c = py_max ?c" by simp
  show ?thesis by (rule estimate_key_tie_is_minor [OF h1 h2 h3 h4])
qed

text \<open>
  The chroma mean of a C major triad (energy on C, E and G only): the largest major score
  and the largest minor score are both 3, and the label is \<open>D minor\<close>. Every product and
  sum here is an integer of at most 3, so \<open>np.dot\<close> does not round.
\<close>

theorem estimate_key_tie_major_counterexample:
  "length [1, 0, 0, 0, 1, 0, 0, 1, 0, 0, 0, 0 :: real] = 12
   \<and> bind (scores dot_exact major_profile [1, 0, 0, 0, 1, 0, 0, 1, 0, 0, 0, 0]) py_max = Inr 3
   \<and> bind (scores dot_exact minor_profile [1, 0, 0, 0, 1, 0, 0, 1, 0, 0, 0, 0]) py_max = Inr 3
   \<and> estimate_key dot_exact [1, 0, 0, 0, 1, 0, 0, 1, 0, 0, 0, 0] = Inr ''D minor''
   \<and> \<not> endswith ''D minor'' ''major''"
  by code_simp

text \<open>
  Claim C7. For a chroma mean vector of 12 elements: the two templates are the binary
  major and minor scale patterns anchored at C; rotation \<open>i\<close> of a template has the
  template's entry for pitch class \<open>j - i\<close> (modulo 12) at pitch class \<open>j\<close>; the score
  lists of the code are, for each rotation \<open>i\<close> of 0 to 11, the dot product that
  \<open>np.dot\<close> computes of the rotated template and the chroma mean; the label is built from
  a rotation whose score is largest within its mode; and it is one of the 24 distinct
  labels of 12 pitch classes times 2 modes.
\<close>

theorem estimate_key_template_matching:
  assumes "length chroma_mean = 12"
  shows "major_profile = [1, 0, 1, 0, 1, 1, 0, 1, 0, 1, 0, 1]
     \<and> minor_profile = [1, 0, 1, 1, 0, 1, 0, 1, 1, 0, 1, 0]
     \<and> (\<forall>i<12. \<forall>j<12. np_roll major_profile i ! j = major_profile ! ((j + 12 - i) mod 12))
     \<and> (\<forall>i<12. \<forall>j<12. np_roll minor_profile i ! j = minor_profile ! ((j + 12 - i) mod 12))
     \<and> scores dot major_profile chroma_mean
         = Inr (map (\<lambda>i. dot (np_roll major_profile i) chroma_mean) [0..<12])
     \<and> scores dot minor_profile chroma_mean
         = Inr (map (\<lambda>i. dot (np_roll minor_profile i) chroma_mean) [0..<12])
     \<and> (\<exists>i<12. \<exists>j<12.
           (\<forall>k<12. dot (np_roll major_profile k) chroma_mean
                      \<le> dot (np_roll major_profile i) chroma_mean)
         \<and> (\<forall>k<12. dot (np_roll minor_profile k) chroma_mean
                      \<le> dot (np_roll minor_profile j) chroma_mean)
         \<and> estimate_key dot chroma_mean =
             Inr (if dot (np_roll minor_profile j) chroma_mean
                       < dot (np_roll major_profile i) chroma_mean
                  then keys ! i @ '' major'' else keys ! j @ '' minor''))
     \<and> (\<exists>label\<in>set all_labels. estimate_key dot chroma_mean = Inr label)
     \<and> distinct all_labels \<and> length all_labels = 24"
proof -
  let ?f = "\<lambda>i. dot (np_roll major_profile i) chroma_mean"
  let ?g = "\<lambda>i. dot (np_roll minor_profile i) chroma_mean"
  have lp: "length major_profile = 12" "length minor_profile = 12"
    by (simp_all add: major_profile_def minor_profile_def)
  have M: "scores dot major_profile chroma_mean = Inr (map ?f [0..<12])"
    by (rule scores_eq [OF lp(1) assms])
  have m: "scores dot minor_profile chroma_mean = Inr (map ?g [0..<12])"
    by (rule scores_eq [OF lp(2) assms])
  have nf: "\<And>k. k < 12 \<Longrightarrow> map ?f [0..<12] ! k = ?f k" by (simp del: upt_Suc)
  have ng: "\<And>k. k < 12 \<Longrightarrow> map ?g [0..<12] ! k = ?g k" by (simp del: upt_Suc)
  have len: "length (map ?f [0..<12]) = 12" "length (map ?g [0..<12]) = 12" by simp_all
  obtain i j where i: "first_max (map ?f [0..<12]) i" and j: "first_max (map ?g [0..<12]) j"
    and ek: "estimate_key dot chroma_mean =
               Inr (if map ?g [0..<12] ! j < map ?f [0..<12] ! i
                    then keys ! i @ '' major'' else keys ! j @ '' minor'')"
    using estimate_key_scores [OF M m] by blast
  have lt: "i < 12" "j < 12"
    using first_max_lowest(1) [OF i] first_max_lowest(1) [OF j] len by metis+
  have li: "\<forall>k<12. ?f k \<le> ?f i"
  proof (intro allI impI)
    fix k :: nat assume k: "k < 12"
    have "map ?f [0..<12] ! k \<le> map ?f [0..<12] ! i"
      using first_max_lowest(2) [OF i] k len(1) by metis
    then show "?f k \<le> ?f i" using nf [OF k] nf [OF lt(1)] by simp
  qed
  have lj: "\<forall>k<12. ?g k \<le> ?g j"
  proof (intro allI impI)
    fix k :: nat assume k: "k < 12"
    have "map ?g [0..<12] ! k \<le> map ?g [0..<12] ! j"
      using first_max_lowest(2) [OF j] k len(2) by metis
    then show "?g k \<le> ?g j" using ng [OF k] ng [OF lt(2)] by simp
  qed
  have ek': "estimate_key dot chroma_mean =
               Inr (if ?g j < ?f i then keys ! i @ '' major'' else keys ! j @ '' minor'')"
    using ek nf [OF lt(1)] ng [OF lt(2)] by simp
  have best: "\<exists>i<12. \<exists>j<12. (\<forall>k<12. ?f k \<le> ?f i) \<and> (\<forall>k<12. ?g k \<le> ?g j)
         \<and> estimate_key dot chroma_mean =
             Inr (if ?g j < ?f i then keys ! i @ '' major'' else keys ! j @ '' minor'')"
    using lt li lj ek' by blast
  have lab: "\<exists>label\<in>set all_labels. estimate_key dot chroma_mean = Inr label"
    using ek' label_in_all_labels [OF lt(1)] label_in_all_labels [OF lt(2)] by auto
  have r1: "\<forall>i<12. \<forall>j<12. np_roll major_profile i ! j = major_profile ! ((j + 12 - i) mod 12)"
    using np_roll_nth [of _ major_profile] lp(1) by simp
  have r2: "\<forall>i<12. \<forall>j<12. np_roll minor_profile i ! j = minor_profile ! ((j + 12 - i) mod 12)"
    using np_roll_nth [of _ minor_profile] lp(2) by simp
  have p: "major_profile = [1, 0, 1, 0, 1, 1, 0, 1, 0, 1, 0, 1]"
    "minor_profile = [1, 0, 1, 1, 0, 1, 0, 1, 1, 0, 1, 0]"
    by (simp_all add: major_profile_def minor_profile_def)
  show ?thesis
    using p r1 r2 M m best lab distinct_all_labels by blast
qed

theorem estimate_key_template_matching_witness:
  "length [0, 1, 0, 0, 0, 0, 0, 0, 0, 0, 0, 0 :: real] = 12
   \<and> scores dot_exact major_profile [0, 1, 0, 0, 0, 0, 0, 0, 0, 0, 0, 0]
       = Inr (map (\<lambda>i. dot_exact (np_roll major_profile i) [0, 1, 0, 0, 0, 0, 0, 0, 0, 0, 0, 0])
                [0..<12])
   \<and> (\<exists>label\<in>set all_labels.
         estimate_key dot_exact [0, 1, 0, 0, 0, 0, 0, 0, 0, 0, 0, 0] = Inr label)"
  using estimate_key_template_matching [of "[0, 1, 0, 0, 0, 0, 0, 0, 0, 0, 0, 0]" dot_exact]
  by simp

text \<open>
  Claim C10. Within each mode the rotation that \<open>np.argmax\<close> selects from the score list
  of the code has the largest score, and every rotation with the same score has an index
  at least as large: among tied rotations the lowest index (the root closest to C) is the
  one selected, and the label is built from it. The scores are those that \<open>np.dot\<close>
  computes, whatever its rounding is.
\<close>

theorem estimate_key_lowest_rotation:
  assumes "length chroma_mean = 12"
  shows "\<exists>major_scores minor_scores.
           scores dot major_profile chroma_mean = Inr major_scores
         \<and> scores dot minor_profile chroma_mean = Inr minor_scores
         \<and> length major_scores = 12 \<and> length minor_scores = 12
         \<and> (\<exists>i<12. \<exists>j<12.
               np_argmax major_scores = Inr i
             \<and> (\<forall>k<12. major_scores ! k \<le> major_scores ! i)
             \<and> (\<forall>k<12. major_scores ! k = major_scores ! i \<longrightarrow> i \<le> k)
             \<and> np_argmax minor_scores = Inr j
             \<and> (\<forall>k<12. minor_scores ! k \<le> minor_scores ! j)
             \<and> (\<forall>k<12. minor_scores ! k = minor_scores ! j \<longrightarrow> j \<le> k)
             \<and> estimate_key dot chroma_mean =
                 Inr (if minor_scores ! j < major_scores ! i
                      then keys ! i @ '' major'' else keys ! j @ '' minor''))"
proof -
  let ?M = "map (\<lambda>i. dot (np_roll major_profile i) chroma_mean) [0..<12]"
  let ?m = "map (\<lambda>i. dot (np_roll minor_profile i) chroma_mean) [0..<12]"
  have lp: "length major_profile = 12" "length minor_profile = 12"
    by (simp_all add: major_profile_def minor_profile_def)
  have M: "scores dot major_profile chroma_mean = Inr ?M"
    by (rule scores_eq [OF lp(1) assms])
  have m: "scores dot minor_profile chroma_mean = Inr ?m"
    by (rule scores_eq [OF lp(2) assms])
  have len: "length ?M = 12" "length ?m = 12" by simp_all
  obtain i j where i: "np_argmax ?M = Inr i" "first_max ?M i"
    and j: "np_argmax ?m = Inr j" "first_max ?m j"
    and ek: "estimate_key dot chroma_mean =
               Inr (if ?m ! j < ?M ! i then keys ! i @ '' major'' else keys ! j @ '' minor'')"
    using estimate_key_scores [OF M m] by blast
  note fi = first_max_lowest [OF i(2), unfolded len(1)]
  note fj = first_max_lowest [OF j(2), unfolded len(2)]
  have "\<exists>i<12. \<exists>j<12.
               np_argmax ?M = Inr i
             \<and> (\<forall>k<12. ?M ! k \<le> ?M ! i)
             \<and> (\<forall>k<12. ?M ! k = ?M ! i \<longrightarrow> i \<le> k)
             \<and> np_argmax ?m = Inr j
             \<and> (\<forall>k<12. ?m ! k \<le> ?m ! j)
             \<and> (\<forall>k<12. ?m ! k = ?m ! j \<longrightarrow> j \<le> k)
             \<and> estimate_key dot chroma_mean =
                 Inr (if ?m ! j < ?M ! i
                      then keys ! i @ '' major'' else keys ! j @ '' minor'')"
    using fi fj i(1) j(1) ek by blast
  then show ?thesis using M m len by blast
qed

theorem estimate_key_lowest_rotation_witness:
  "length [1, 0, 0, 0, 1, 0, 0, 1, 0, 0, 0, 0 :: real] = 12
   \<and> (\<exists>major_scores minor_scores.
           scores dot_exact major_profile [1, 0, 0, 0, 1, 0, 0, 1, 0, 0, 0, 0] = Inr major_scores
         \<and> scores dot_exact minor_profile [1, 0, 0, 0, 1, 0, 0, 1, 0, 0, 0, 0] = Inr minor_scores
         \<and> (\<exists>i<12. \<exists>j<12.
               np_argmax major_scores = Inr i
             \<and> np_argmax minor_scores = Inr j
             \<and> estimate_key dot_exact [1, 0, 0, 0, 1, 0, 0, 1, 0, 0, 0, 0] =
                 Inr (if minor_scores ! j < major_scores ! i
                      then keys ! i @ '' major'' else keys ! j @ '' minor'')))"
proof -
  let ?c = "[1, 0, 0, 0, 1, 0, 0, 1, 0, 0, 0, 0 :: real]"
  have h: "length ?c = 12" by simp
  show ?thesis
    using estimate_key_lowest_rotation [OF h, of dot_exact] h by blast
qed
section \<open>Facts about the pipeline\<close>

lemma save_stems_prefix:
  "\<exists>tr. fst (snd (save_stems env folder samplerate xs s)) = fst s @ tr"
proof (induction xs arbitrary: s)
  case Nil
  show ?case by simp
next
  case (Cons x xs)
  obtain source audio where x: "x = (source, audio)" by (cases x)
  let ?out = "path_join folder (source @ ''.wav'')"
  obtain r w where r: "save_audio env audio ?out samplerate (snd s) = (r, w)"
    by (cases "save_audio env audio ?out samplerate (snd s)")
  show ?case
  proof (cases r)
    case (Inr u)
    let ?s1 = "(fst s @ [SaveAudio audio ?out samplerate] @ [Print (Saved source ?out)], w)"
    have step: "save_stems env folder samplerate (x # xs) s =
                 save_stems env folder samplerate xs ?s1"
      using r Inr by (simp add: x Let_def)
    obtain tr where "fst (snd (save_stems env folder samplerate xs ?s1)) = fst ?s1 @ tr"
      using Cons.IH [of ?s1] by blast
    then show ?thesis unfolding step by simp
  next
    case (Inl e)
    note save = Inl
    show ?thesis
    proof (cases "os_getcwd env w")
      case (Inl e1)
      then show ?thesis using r save by (simp add: x Let_def)
    next
      case (Inr cwd)
      note cwd = Inr
      show ?thesis
      proof (cases "os_access_w env (dirname ?out) w")
        case (Inl e2)
        then show ?thesis using r save cwd by (simp add: x Let_def)
      next
        case (Inr writable)
        let ?s1 = "(fst s @ [SaveAudio audio ?out samplerate] @
                     [Print (ErrorSaving source e), Print (Cwd cwd),
                      Print (OutputFolder folder), Print (FilePath ?out),
                      Print (FilePathExists (os_path_exists env (dirname ?out) w)),
                      Print (FilePathWritable writable)], w)"
        have step: "save_stems env folder samplerate (x # xs) s =
                     save_stems env folder samplerate xs ?s1"
          using r save cwd Inr by (simp add: x Let_def)
        obtain tr where "fst (snd (save_stems env folder samplerate xs ?s1)) = fst ?s1 @ tr"
          using Cons.IH [of ?s1] by blast
        then show ?thesis unfolding step by simp
      qed
    qed
  qed
qed

text \<open>
  The guard of lines 89 to 98 where the diagnostics of the handler return: the failed
  write is reported with its context, and the loop goes on with the next stem in the
  world that the failed write has left.
\<close>

lemma save_stems_failure:
  assumes "save_audio env audio (path_join folder (source @ ''.wav'')) samplerate (snd s)
             = (Inl e, w)"
    and "os_getcwd env w = Inr cwd"
    and "os_access_w env (dirname (path_join folder (source @ ''.wav''))) w = Inr writable"
  shows "save_stems env folder samplerate ((source, audio) # rest) s =
           save_stems env folder samplerate rest
             (fst s @
                [SaveAudio audio (path_join folder (source @ ''.wav'')) samplerate,
                 Print (ErrorSaving source e),
                 Print (Cwd cwd),
                 Print (OutputFolder folder),
                 Print (FilePath (path_join folder (source @ ''.wav''))),
                 Print (FilePathExists
                          (os_path_exists env
                             (dirname (path_join folder (source @ ''.wav''))) w)),
                 Print (FilePathWritable writable)], w)"
  using assms by (simp add: Let_def)

text \<open>
  Where \<open>os.getcwd\<close> and \<open>os.access\<close> do not raise, the loop over the stems returns: it
  calls \<open>save_audio\<close> for every stem, in order, each in the world that the call before it
  has left, whether that call has failed or not.
\<close>

lemma save_stems_returns:
  assumes "\<And>w. \<exists>cwd. os_getcwd env w = Inr cwd"
    and "\<And>p w. \<exists>writable. os_access_w env p w = Inr writable"
  shows "\<exists>tr. save_stems env folder samplerate xs s =
           (Inr (),
            (fst s @ tr,
             foldl (\<lambda>w (source, audio).
                      snd (save_audio env audio (path_join folder (source @ ''.wav''))
                             samplerate w)) (snd s) xs))
         \<and> filter is_save tr =
             map (\<lambda>(source, audio).
                    SaveAudio audio (path_join folder (source @ ''.wav'')) samplerate) xs"
proof (induction xs arbitrary: s)
  case Nil
  show ?case by (intro exI [of _ "[]"]) simp
next
  case (Cons x xs)
  obtain source audio where x: "x = (source, audio)" by (cases x)
  let ?out = "path_join folder (source @ ''.wav'')"
  let ?F = "\<lambda>w (source, audio).
              snd (save_audio env audio (path_join folder (source @ ''.wav'')) samplerate w)"
  let ?S = "\<lambda>(source, audio).
              SaveAudio audio (path_join folder (source @ ''.wav'')) samplerate"
  obtain r w where r: "save_audio env audio ?out samplerate (snd s) = (r, w)"
    by (cases "save_audio env audio ?out samplerate (snd s)")
  have fold: "foldl ?F (snd s) (x # xs) = foldl ?F w xs"
    using r by (simp add: x)
  show ?case
  proof (cases r)
    case (Inr u)
    let ?ev = "[SaveAudio audio ?out samplerate, Print (Saved source ?out)]"
    let ?s1 = "(fst s @ ?ev, w)"
    have step: "save_stems env folder samplerate (x # xs) s =
                 save_stems env folder samplerate xs ?s1"
      using r Inr by (simp add: x Let_def)
    obtain tr where tr: "save_stems env folder samplerate xs ?s1 =
                           (Inr (), (fst ?s1 @ tr, foldl ?F (snd ?s1) xs))"
      "filter is_save tr = map ?S xs"
      using Cons.IH [of ?s1] by blast
    have "save_stems env folder samplerate (x # xs) s =
            (Inr (), (fst s @ (?ev @ tr), foldl ?F (snd s) (x # xs)))"
      unfolding step fold using tr(1) by simp
    moreover have "filter is_save (?ev @ tr) = map ?S (x # xs)"
      using tr(2) by (simp add: x)
    ultimately show ?thesis by blast
  next
    case (Inl e)
    obtain cwd where cwd: "os_getcwd env w = Inr cwd" using assms(1) by blast
    obtain writable where wr: "os_access_w env (dirname ?out) w = Inr writable"
      using assms(2) by blast
    let ?ev = "[SaveAudio audio ?out samplerate,
                Print (ErrorSaving source e), Print (Cwd cwd),
                Print (OutputFolder folder), Print (FilePath ?out),
                Print (FilePathExists (os_path_exists env (dirname ?out) w)),
                Print (FilePathWritable writable)]"
    let ?s1 = "(fst s @ ?ev, w)"
    have step: "save_stems env folder samplerate (x # xs) s =
                 save_stems env folder samplerate xs ?s1"
      using r Inl cwd wr by (simp add: x Let_def)
    obtain tr where tr: "save_stems env folder samplerate xs ?s1 =
                           (Inr (), (fst ?s1 @ tr, foldl ?F (snd ?s1) xs))"
      "filter is_save tr = map ?S xs"
      using Cons.IH [of ?s1] by blast
    have "save_stems env folder samplerate (x # xs) s =
            (Inr (), (fst s @ (?ev @ tr), foldl ?F (snd s) (x # xs)))"
      unfolding step fold using tr(1) by simp
    moreover have "filter is_save (?ev @ tr) = map ?S (x # xs)"
      using tr(2) by (simp add: x)
    ultimately show ?thesis by blast
  qed
qed

lemma split_audio_guarded:
  assumes "separate_audio_file env
             (if cuda_is_available env (snd s) then ''cuda'' else ''cpu'')
             input_path (snd s)
           = (Inr (sources, samplerate), w1)"
    and "os_makedirs env folder w1 = (Inr (), w2)"
    and "\<And>w. \<exists>cwd. os_getcwd env w = Inr cwd"
    and "\<And>p w. \<exists>writable. os_access_w env p w = Inr writable"
  shows "\<exists>tr. split_audio env input_path folder s =
           (Inr (),
            (fst s @ [Print (Splitting input_path),
                      Separate (if cuda_is_available env (snd s) then ''cuda'' else ''cpu'')
                        input_path,
                      MakeDirs folder] @ tr @ [Print SplittingCompleted],
             foldl (\<lambda>w (source, audio).
                      snd (save_audio env audio (path_join folder (source @ ''.wav''))
                             samplerate w)) w2 sources))
         \<and> filter is_save tr =
             map (\<lambda>(source, audio).
                    SaveAudio audio (path_join folder (source @ ''.wav'')) samplerate)
               sources"
proof -
  let ?device = "if cuda_is_available env (snd s) then ''cuda'' else ''cpu''"
  let ?s0 = "(fst s @ [Print (Splitting input_path), Separate ?device input_path,
                        MakeDirs folder], w2)"
  let ?F = "\<lambda>w (source, audio).
              snd (save_audio env audio (path_join folder (source @ ''.wav'')) samplerate w)"
  obtain tr where tr: "save_stems env folder samplerate sources ?s0 =
                         (Inr (), (fst ?s0 @ tr, foldl ?F (snd ?s0) sources))"
    "filter is_save tr = map (\<lambda>(source, audio).
         SaveAudio audio (path_join folder (source @ ''.wav'')) samplerate) sources"
    using save_stems_returns [OF assms(3,4), of folder samplerate sources ?s0] by blast
  have "split_audio env input_path folder s =
          (Inr (), (fst ?s0 @ tr @ [Print SplittingCompleted], foldl ?F w2 sources))"
    using assms(1,2) tr(1) by (simp add: split_audio_def Let_def)
  then show ?thesis using tr(2) by auto
qed

lemma download_audio_trace:
  "fst (snd (download_audio env url folder s)) =
     fst s @ [ExtractInfo url (path_join folder ''%(title)s.%(ext)s'')]"
  by (simp add: download_audio_def Let_def split: prod.splits sum.splits)

lemma detect_key_and_bpm_state:
  "snd (detect_key_and_bpm env input_path s) = (fst s @ [Load input_path], snd s)"
  by (simp add: detect_key_and_bpm_def)

lemma split_audio_trace:
  "\<exists>tr. fst (snd (split_audio env input_path folder s)) = fst s @ tr"
proof -
  let ?device = "if cuda_is_available env (snd s) then ''cuda'' else ''cpu''"
  let ?tr = "fst s @ [Print (Splitting input_path), Separate ?device input_path]"
  obtain r w1 where sep: "separate_audio_file env ?device input_path (snd s) = (r, w1)"
    by (cases "separate_audio_file env ?device input_path (snd s)")
  show ?thesis
  proof (cases r)
    case (Inl e)
    then show ?thesis using sep by (simp add: split_audio_def Let_def)
  next
    case (Inr p)
    note r = Inr
    obtain sources samplerate where p: "p = (sources, samplerate)" by (cases p)
    obtain r2 w2 where mk: "os_makedirs env folder w1 = (r2, w2)"
      by (cases "os_makedirs env folder w1")
    show ?thesis
    proof (cases r2)
      case (Inl e)
      then show ?thesis using sep r p mk by (simp add: split_audio_def Let_def)
    next
      case (Inr u)
      note r2 = Inr
      let ?s0 = "(?tr @ [MakeDirs folder], w2)"
      obtain r3 s' where st: "save_stems env folder samplerate sources ?s0 = (r3, s')"
        by (cases "save_stems env folder samplerate sources ?s0")
      obtain tr where tr: "fst s' = fst ?s0 @ tr"
        using save_stems_prefix [of env folder samplerate sources ?s0] st by auto
      show ?thesis
      proof (cases r3)
        case (Inl e)
        then show ?thesis using sep r p mk r2 st tr by (simp add: split_audio_def Let_def)
      next
        case (Inr u')
        then show ?thesis using sep r p mk r2 st tr by (simp add: split_audio_def Let_def)
      qed
    qed
  qed
qed

lemma main_loop_trace:
  "\<exists>tr. fst (snd (main_loop env inputs s)) = fst s @ tr"
proof (induction inputs arbitrary: s)
  case Nil
  show ?case by simp
next
  case (Cons url inputs)
  show ?case
  proof (cases "str_lower url = ''exit''")
    case True
    then show ?thesis by simp
  next
    case False
    let ?s0 = "(fst s @ [Input prompt], snd s)"
    obtain r s1 where dl: "download_audio env url download_folder ?s0 = (r, s1)"
      by (cases "download_audio env url download_folder ?s0")
    have s1: "fst s1 = fst s @ [Input prompt]
                @ [ExtractInfo url (path_join download_folder ''%(title)s.%(ext)s'')]"
      using download_audio_trace [of env url download_folder ?s0] dl by simp
    show ?thesis
    proof (cases r)
      case (Inl e)
      then show ?thesis using False dl s1 by simp
    next
      case (Inr input_path)
      note r = Inr
      show ?thesis
      proof (cases "os_path_exists env input_path (snd s1)")
        case False
        obtain tr where "fst (snd (main_loop env inputs
                           (fst s1 @ [Print ErrorDownloading], snd s1))) =
                         (fst s1 @ [Print ErrorDownloading]) @ tr"
          using Cons.IH [of "(fst s1 @ [Print ErrorDownloading], snd s1)"] by auto
        then show ?thesis using \<open>str_lower url \<noteq> ''exit''\<close> dl r False s1 by simp
      next
        case True
        note ex = True
        obtain r2 s2 where dk: "detect_key_and_bpm env input_path s1 = (r2, s2)"
          by (cases "detect_key_and_bpm env input_path s1")
        have s2: "fst s2 = fst s1 @ [Load input_path]"
          using detect_key_and_bpm_state [of env input_path s1] dk by simp
        show ?thesis
        proof (cases r2)
          case (Inl e)
          then show ?thesis using False dl r ex dk s1 s2 by simp
        next
          case (Inr kb)
          obtain key bpm where kb: "kb = (key, bpm)" by (cases kb)
          let ?f = "path_join output_folder (folder_name (song_title_of input_path) key bpm)"
          let ?tr2 = "fst s2 @ [Print (Detected key bpm), MakeDirs ?f]"
          obtain r3 w where mk: "os_makedirs env ?f (snd s2) = (r3, w)"
            by (cases "os_makedirs env ?f (snd s2)")
          note r2 = Inr
          show ?thesis
          proof (cases r3)
            case (Inl e)
            then show ?thesis using False dl r ex dk r2 kb mk s1 s2 by (simp add: Let_def)
          next
            case (Inr u)
            note r3 = Inr
            obtain r4 s3 where sp: "split_audio env input_path ?f (?tr2, w) = (r4, s3)"
              by (cases "split_audio env input_path ?f (?tr2, w)")
            obtain tr3 where s3: "fst s3 = ?tr2 @ tr3"
              using split_audio_trace [of env input_path ?f "(?tr2, w)"] sp by auto
            show ?thesis
            proof (cases r4)
              case (Inl e)
              then show ?thesis
                using False dl r ex dk r2 kb mk r3 sp s1 s2 s3 by (simp add: Let_def)
            next
              case (Inr u')
              obtain tr where "fst (snd (main_loop env inputs s3)) = fst s3 @ tr"
                using Cons.IH [of s3] by auto
              then show ?thesis
                using False dl r ex dk r2 kb mk r3 sp Inr s1 s2 s3 by (simp add: Let_def)
            qed
          qed
        qed
      qed
    qed
  qed
qed

lemma main_loop_url_trace:
  assumes ne: "str_lower url \<noteq> ''exit''"
  shows "\<exists>tr. fst (snd (main_loop env (url # inputs) s)) =
           fst s @ [Input prompt,
                    ExtractInfo url (path_join download_folder ''%(title)s.%(ext)s'')] @ tr"
proof -
  let ?s0 = "(fst s @ [Input prompt], snd s)"
  let ?x = "ExtractInfo url (path_join download_folder ''%(title)s.%(ext)s'')"
  obtain r s1 where dl: "download_audio env url download_folder ?s0 = (r, s1)"
    by (cases "download_audio env url download_folder ?s0")
  have s1: "fst s1 = fst s @ [Input prompt, ?x]"
    using download_audio_trace [of env url download_folder ?s0] dl by simp
  show "\<exists>tr. fst (snd (main_loop env (url # inputs) s)) = fst s @ [Input prompt, ?x] @ tr"
  proof (cases r)
    case (Inl e)
    then show ?thesis using ne dl s1 by simp
  next
    case (Inr input_path)
    note r = Inr
    show ?thesis
    proof (cases "os_path_exists env input_path (snd s1)")
      case False
      obtain tr where "fst (snd (main_loop env inputs
                         (fst s1 @ [Print ErrorDownloading], snd s1))) =
                       (fst s1 @ [Print ErrorDownloading]) @ tr"
        using main_loop_trace [of env inputs "(fst s1 @ [Print ErrorDownloading], snd s1)"]
        by auto
      then show ?thesis using ne dl r False s1 by simp
    next
      case True
      note ex = True
      obtain r2 s2 where dk: "detect_key_and_bpm env input_path s1 = (r2, s2)"
        by (cases "detect_key_and_bpm env input_path s1")
      have s2: "fst s2 = fst s1 @ [Load input_path]"
        using detect_key_and_bpm_state [of env input_path s1] dk by simp
      show ?thesis
      proof (cases r2)
        case (Inl e)
        then show ?thesis using ne dl r ex dk s1 s2 by simp
      next
        case (Inr kb)
        obtain key bpm where kb: "kb = (key, bpm)" by (cases kb)
        let ?f = "path_join output_folder (folder_name (song_title_of input_path) key bpm)"
        let ?tr2 = "fst s2 @ [Print (Detected key bpm), MakeDirs ?f]"
        obtain r3 w where mk: "os_makedirs env ?f (snd s2) = (r3, w)"
          by (cases "os_makedirs env ?f (snd s2)")
        note r2 = Inr
        show ?thesis
        proof (cases r3)
          case (Inl e)
          then show ?thesis using ne dl r ex dk r2 kb mk s1 s2 by (simp add: Let_def)
        next
          case (Inr u)
          note r3 = Inr
          obtain r4 s3 where sp: "split_audio env input_path ?f (?tr2, w) = (r4, s3)"
            by (cases "split_audio env input_path ?f (?tr2, w)")
          obtain tr3 where s3: "fst s3 = ?tr2 @ tr3"
            using split_audio_trace [of env input_path ?f "(?tr2, w)"] sp by auto
          show ?thesis
          proof (cases r4)
            case (Inl e)
            then show ?thesis
              using ne dl r ex dk r2 kb mk r3 sp s1 s2 s3 by (simp add: Let_def)
          next
            case (Inr u')
            obtain tr where "fst (snd (main_loop env inputs s3)) = fst s3 @ tr"
              using main_loop_trace [of env inputs s3] by auto
            then show ?thesis
              using ne dl r ex dk r2 kb mk r3 sp Inr s1 s2 s3 by (simp add: Let_def)
          qed
        qed
      qed
    qed
  qed
qed

lemma download_audio_webm:
  assumes "ydl_extract env url ''inputs/%(title)s.%(ext)s'' w = (Inr ''inputs/Track.webm'', w')"
  shows "download_audio env url download_folder (tr, w)
         = (Inr ''inputs/Track.mp3'',
            (tr @ [ExtractInfo url ''inputs/%(title)s.%(ext)s''], w'))"
proof -
  have r: "str_replace (str_replace ''inputs/Track.webm'' ''.webm'' ''.mp3'') ''.m4a'' ''.mp3''
           = ''inputs/Track.mp3''" by code_simp
  have p: "path_join download_folder ''%(title)s.%(ext)s'' = ''inputs/%(title)s.%(ext)s''"
    by code_simp
  show ?thesis
    using assms by (simp add: download_audio_def Let_def r p)
qed

lemma url_not_exit: "str_lower ''https://example.org/v'' \<noteq> ''exit''"
  by code_simp

lemma example_analysis:
  "analyse (example_world\<lparr>separate_audio_file := sep\<rparr>) [0, 1] 22050 w
     = Inr (''A minor'', 954 / 10)"
proof -
  have k: "estimate_key dot_exact
             (np_mean_axis1 mean_exact (map (\<lambda>x. [x, x]) [1, 0, 0, 0, 1, 1, 0, 0, 0, 1, 0, 1]))
           = Inr ''A minor''" by code_simp
  show ?thesis
    using k by (simp add: analyse_def bind_def example_world_def)
qed

lemma example_folder:
  "path_join output_folder (folder_name (song_title_of ''inputs/Track.mp3'') ''A minor'' (477 / 5))
   = ''outputs/Track_A minor_95''"
  by code_simp

lemma example_paths:
  "path_join ''outputs/Track_A minor_95'' ''vocals.wav'' = ''outputs/Track_A minor_95/vocals.wav''"
  "path_join ''outputs/Track_A minor_95'' ''drums.wav'' = ''outputs/Track_A minor_95/drums.wav''"
  "path_join ''outputs/Track_A minor_95'' ''bass.wav'' = ''outputs/Track_A minor_95/bass.wav''"
  "path_join ''outputs/Track_A minor_95'' ''other.wav'' = ''outputs/Track_A minor_95/other.wav''"
  "basename ''outputs/Track_A minor_95/vocals.wav'' = ''vocals.wav''"
  "basename ''outputs/Track_A minor_95/drums.wav'' = ''drums.wav''"
  "basename ''outputs/Track_A minor_95/bass.wav'' = ''bass.wav''"
  "basename ''outputs/Track_A minor_95/other.wav'' = ''other.wav''"
  "dirname ''outputs/Track_A minor_95/drums.wav'' = ''outputs/Track_A minor_95''"
  by code_simp+

lemma example_split:
  "split_audio example_world ''inputs/Track.mp3'' ''outputs/Track_A minor_95'' (tr, ())
   = (Inr (),
      (tr @ [Print (Splitting ''inputs/Track.mp3''), Separate ''cpu'' ''inputs/Track.mp3'',
             MakeDirs ''outputs/Track_A minor_95'',
             SaveAudio [] ''outputs/Track_A minor_95/vocals.wav'' 44100,
             Print (Saved ''vocals'' ''outputs/Track_A minor_95/vocals.wav''),
             SaveAudio [] ''outputs/Track_A minor_95/drums.wav'' 44100,
             Print (ErrorSaving ''drums'' (Raised ''disk full'')),
             Print (Cwd ''/home/user''),
             Print (OutputFolder ''outputs/Track_A minor_95''),
             Print (FilePath ''outputs/Track_A minor_95/drums.wav''),
             Print (FilePathExists True),
             Print (FilePathWritable False),
             SaveAudio [] ''outputs/Track_A minor_95/bass.wav'' 44100,
             Print (Saved ''bass'' ''outputs/Track_A minor_95/bass.wav''),
             SaveAudio [] ''outputs/Track_A minor_95/other.wav'' 44100,
             Print (Saved ''other'' ''outputs/Track_A minor_95/other.wav''),
             Print SplittingCompleted], ()))"
  by (simp add: split_audio_def Let_def example_world_def example_paths)
section \<open>The claims about the pipeline\<close>

text \<open>
  Claim C5 asks that a failed stem write is logged with its context, that the remaining
  stems are still written and that the stage reports completion. The \<open>try\<close> of line 89
  guards the write, but the handler calls \<open>os.getcwd\<close> unguarded (line 94). In the world
  where the working directory has been removed after the first stem was written, the
  write of \<open>drums.wav\<close> fails, the handler prints the error, and \<open>os.getcwd\<close> raises:
  the exception leaves \<open>split_audio\<close>. Neither the working directory nor the rest of
  the context is printed, \<open>save_audio\<close> is never called for the stems \<open>bass\<close> and
  \<open>other\<close>, and the completion message is not printed.
\<close>

theorem split_audio_handler_raises:
  "split_audio removed_cwd_world ''inputs/Track.mp3'' ''outputs/Track_A minor_95'' ([], ())
   = (Inl (Raised ''FileNotFoundError''),
      ([Print (Splitting ''inputs/Track.mp3''), Separate ''cpu'' ''inputs/Track.mp3'',
        MakeDirs ''outputs/Track_A minor_95'',
        SaveAudio [] ''outputs/Track_A minor_95/vocals.wav'' 44100,
        Print (Saved ''vocals'' ''outputs/Track_A minor_95/vocals.wav''),
        SaveAudio [] ''outputs/Track_A minor_95/drums.wav'' 44100,
        Print (ErrorSaving ''drums'' (Raised ''FileNotFoundError''))], ()))"
  by (simp add: split_audio_def Let_def removed_cwd_world_def example_world_def example_paths)

text \<open>
  Claim C8. An input whose lowercase form is \<open>exit\<close> ends the loop normally: the prompt
  is the only event of that iteration, so nothing is acquired, and the inputs after it are
  not read. Any other input is the URL of an iteration: it is passed to \<open>download_audio\<close>
  with the download folder, so the event after the prompt is the extraction of that URL; an
  exception of the acquisition leaves the loop; and when the acquired file exists, the
  analysis of that file returns a key and a tempo, the folder named after them is created
  and the separation into that folder returns, the loop goes on with the next input in
  the state the separation has left.
\<close>

theorem main_loop_exit:
  "(str_lower url = ''exit'' \<longrightarrow>
      main_loop env (url # inputs) s = (Inr (), (fst s @ [Input prompt], snd s)))
   \<and> (str_lower url \<noteq> ''exit'' \<longrightarrow>
      (\<exists>tr. fst (snd (main_loop env (url # inputs) s)) =
             fst s @ [Input prompt,
                      ExtractInfo url (path_join download_folder ''%(title)s.%(ext)s'')] @ tr)
    \<and> (download_audio env url download_folder (fst s @ [Input prompt], snd s) = (Inl e, s0)
         \<longrightarrow> main_loop env (url # inputs) s = (Inl e, s0))
    \<and> (download_audio env url download_folder (fst s @ [Input prompt], snd s)
           = (Inr input_path, s1)
         \<and> os_path_exists env input_path (snd s1)
         \<and> detect_key_and_bpm env input_path s1 = (Inr (key, bpm), s2)
         \<and> os_makedirs env
              (path_join output_folder (folder_name (song_title_of input_path) key bpm))
              (snd s2) = (Inr (), w)
         \<and> split_audio env input_path
              (path_join output_folder (folder_name (song_title_of input_path) key bpm))
              (fst s2 @ [Print (Detected key bpm),
                         MakeDirs (path_join output_folder
                                     (folder_name (song_title_of input_path) key bpm))], w)
            = (Inr (), s3)
         \<longrightarrow> main_loop env (url # inputs) s = main_loop env inputs s3))"
proof (intro conjI impI)
  assume "str_lower url = ''exit''"
  then show "main_loop env (url # inputs) s = (Inr (), (fst s @ [Input prompt], snd s))"
    by simp
next
  assume "str_lower url \<noteq> ''exit''"
  then show "\<exists>tr. fst (snd (main_loop env (url # inputs) s)) =
             fst s @ [Input prompt,
                      ExtractInfo url (path_join download_folder ''%(title)s.%(ext)s'')] @ tr"
    by (rule main_loop_url_trace)
next
  assume "str_lower url \<noteq> ''exit''"
    and "download_audio env url download_folder (fst s @ [Input prompt], snd s) = (Inl e, s0)"
  then show "main_loop env (url # inputs) s = (Inl e, s0)" by simp
next
  assume "str_lower url \<noteq> ''exit''"
    and "download_audio env url download_folder (fst s @ [Input prompt], snd s)
           = (Inr input_path, s1)
         \<and> os_path_exists env input_path (snd s1)
         \<and> detect_key_and_bpm env input_path s1 = (Inr (key, bpm), s2)
         \<and> os_makedirs env
              (path_join output_folder (folder_name (song_title_of input_path) key bpm))
              (snd s2) = (Inr (), w)
         \<and> split_audio env input_path
              (path_join output_folder (folder_name (song_title_of input_path) key bpm))
              (fst s2 @ [Print (Detected key bpm),
                         MakeDirs (path_join output_folder
                                     (folder_name (song_title_of input_path) key bpm))], w)
            = (Inr (), s3)"
  then show "main_loop env (url # inputs) s = main_loop env inputs s3"
    by (simp add: Let_def)
qed

theorem main_loop_exit_witness:
  "str_lower ''EXIT'' = ''exit''
   \<and> main_loop example_world [''EXIT'', ''https://example.org/v''] ([], ())
       = (Inr (), ([Input prompt], ()))
   \<and> str_lower ''exit '' \<noteq> ''exit''
   \<and> main_loop example_world [''exit ''] ([], ())
       = (Inl EOFError,
          ([Input prompt, ExtractInfo ''exit '' ''inputs/%(title)s.%(ext)s'',
            Load ''inputs/Track.mp3'', Print (Detected ''A minor'' (954 / 10)),
            MakeDirs ''outputs/Track_A minor_95'',
            Print (Splitting ''inputs/Track.mp3''), Separate ''cpu'' ''inputs/Track.mp3'',
            MakeDirs ''outputs/Track_A minor_95'',
            SaveAudio [] ''outputs/Track_A minor_95/vocals.wav'' 44100,
            Print (Saved ''vocals'' ''outputs/Track_A minor_95/vocals.wav''),
            SaveAudio [] ''outputs/Track_A minor_95/drums.wav'' 44100,
            Print (ErrorSaving ''drums'' (Raised ''disk full'')),
            Print (Cwd ''/home/user''),
            Print (OutputFolder ''outputs/Track_A minor_95''),
            Print (FilePath ''outputs/Track_A minor_95/drums.wav''),
            Print (FilePathExists True),
            Print (FilePathWritable False),
            SaveAudio [] ''outputs/Track_A minor_95/bass.wav'' 44100,
            Print (Saved ''bass'' ''outputs/Track_A minor_95/bass.wav''),
            SaveAudio [] ''outputs/Track_A minor_95/other.wav'' 44100,
            Print (Saved ''other'' ''outputs/Track_A minor_95/other.wav''),
            Print SplittingCompleted,
            Input prompt], ()))"
proof -
  let ?s1 = "([Input prompt, ExtractInfo ''exit '' ''inputs/%(title)s.%(ext)s''], ())
             :: unit state"
  let ?s2 = "([Input prompt, ExtractInfo ''exit '' ''inputs/%(title)s.%(ext)s'',
               Load ''inputs/Track.mp3''], ()) :: unit state"
  let ?tr2 = "fst ?s2 @ [Print (Detected ''A minor'' (954 / 10)),
                         MakeDirs ''outputs/Track_A minor_95'']"
  let ?s3 = "(?tr2 @
              [Print (Splitting ''inputs/Track.mp3''), Separate ''cpu'' ''inputs/Track.mp3'',
               MakeDirs ''outputs/Track_A minor_95'',
               SaveAudio [] ''outputs/Track_A minor_95/vocals.wav'' 44100,
               Print (Saved ''vocals'' ''outputs/Track_A minor_95/vocals.wav''),
               SaveAudio [] ''outputs/Track_A minor_95/drums.wav'' 44100,
               Print (ErrorSaving ''drums'' (Raised ''disk full'')),
               Print (Cwd ''/home/user''),
               Print (OutputFolder ''outputs/Track_A minor_95''),
               Print (FilePath ''outputs/Track_A minor_95/drums.wav''),
               Print (FilePathExists True),
               Print (FilePathWritable False),
               SaveAudio [] ''outputs/Track_A minor_95/bass.wav'' 44100,
               Print (Saved ''bass'' ''outputs/Track_A minor_95/bass.wav''),
               SaveAudio [] ''outputs/Track_A minor_95/other.wav'' 44100,
               Print (Saved ''other'' ''outputs/Track_A minor_95/other.wav''),
               Print SplittingCompleted], ()) :: unit state"
  have h1: "str_lower ''EXIT'' = ''exit''" by code_simp
  have h2: "str_lower ''exit '' \<noteq> ''exit''" by code_simp
  have dl: "download_audio example_world ''exit '' download_folder
              (fst (([], ()) :: unit state) @ [Input prompt], snd (([], ()) :: unit state))
            = (Inr ''inputs/Track.mp3'', ?s1)"
    by (simp add: download_audio_webm example_world_def)
  have ex: "os_path_exists example_world ''inputs/Track.mp3'' (snd ?s1)"
    by (simp add: example_world_def)
  have ld: "librosa_load example_world ''inputs/Track.mp3'' () = Inr ([0, 1], 22050)"
    by (simp add: example_world_def)
  have an: "analyse example_world [0, 1] 22050 () = Inr (''A minor'', 954 / 10)"
    using example_analysis [of "separate_audio_file example_world" "()"] by simp
  have dk: "detect_key_and_bpm example_world ''inputs/Track.mp3'' ?s1
            = (Inr (''A minor'', 954 / 10), ?s2)"
    using ld an by (simp add: detect_key_and_bpm_def bind_def)
  have f: "path_join output_folder
             (folder_name (song_title_of ''inputs/Track.mp3'') ''A minor'' (954 / 10))
           = ''outputs/Track_A minor_95''"
    using example_folder by simp
  have mk: "os_makedirs example_world
              (path_join output_folder
                 (folder_name (song_title_of ''inputs/Track.mp3'') ''A minor'' (954 / 10)))
              (snd ?s2) = (Inr (), ())"
    by (simp add: example_world_def)
  have sp: "split_audio example_world ''inputs/Track.mp3''
              (path_join output_folder
                 (folder_name (song_title_of ''inputs/Track.mp3'') ''A minor'' (954 / 10)))
              (fst ?s2 @ [Print (Detected ''A minor'' (954 / 10)),
                          MakeDirs (path_join output_folder
                                      (folder_name (song_title_of ''inputs/Track.mp3'')
                                         ''A minor'' (954 / 10)))], ())
            = (Inr (), ?s3)"
    unfolding f using example_split [of ?tr2] by simp
  have run: "main_loop example_world [''exit ''] ([], ()) = main_loop example_world [] ?s3"
    using main_loop_exit [where url = "''exit ''" and env = example_world and inputs = "[]"
        and s = "([], ())" and input_path = "''inputs/Track.mp3''" and ?s1.0 = ?s1
        and key = "''A minor''" and bpm = "954 / 10" and ?s2.0 = ?s2 and w = "()"
        and ?s3.0 = ?s3]
      h2 dl ex dk mk sp by blast
  have stop: "main_loop example_world [''EXIT'', ''https://example.org/v''] ([], ())
              = (Inr (), ([Input prompt], ()))"
    using main_loop_exit [where url = "''EXIT''" and env = example_world
        and inputs = "[''https://example.org/v'']" and s = "([], ())"] h1
    by simp
  show ?thesis
    using h1 h2 stop run by simp
qed



text \<open>
  Claim C2, as the code has it. \<open>main\<close> has no \<open>try\<close> around \<open>detect_key_and_bpm\<close>
  or \<open>split_audio\<close>: an exception raised by either of them leaves the loop as its
  result, in the state of the raise, whatever inputs remain; they are never read.
\<close>

theorem main_loop_failure_escapes:
  assumes "str_lower url \<noteq> ''exit''"
    and "download_audio env url download_folder (fst s @ [Input prompt], snd s)
           = (Inr input_path, s1)"
    and "os_path_exists env input_path (snd s1)"
  shows "(detect_key_and_bpm env input_path s1 = (Inl e, s2) \<longrightarrow>
            main_loop env (url # inputs) s = (Inl e, s2))
       \<and> (detect_key_and_bpm env input_path s1 = (Inr (key, bpm), s2)
          \<and> os_makedirs env
               (path_join output_folder (folder_name (song_title_of input_path) key bpm))
               (snd s2) = (Inr (), w)
          \<and> split_audio env input_path
               (path_join output_folder (folder_name (song_title_of input_path) key bpm))
               (fst s2 @ [Print (Detected key bpm),
                          MakeDirs (path_join output_folder
                                      (folder_name (song_title_of input_path) key bpm))], w)
             = (Inl e, s3) \<longrightarrow>
            main_loop env (url # inputs) s = (Inl e, s3))"
  using assms by (simp add: Let_def)

theorem main_loop_failure_escapes_witness:
  "main_loop (example_world\<lparr>librosa_load := \<lambda>path w. Inl (Raised ''no backend'')\<rparr>)
     [''https://example.org/v'', ''exit''] ([], ())
   = (Inl (Raised ''no backend''),
      ([Input prompt, ExtractInfo ''https://example.org/v'' ''inputs/%(title)s.%(ext)s'',
        Load ''inputs/Track.mp3''], ()))"
proof -
  let ?env = "example_world\<lparr>librosa_load := \<lambda>path w. Inl (Raised ''no backend'')\<rparr>"
  let ?s1 = "([Input prompt,
               ExtractInfo ''https://example.org/v'' ''inputs/%(title)s.%(ext)s''], ()) :: unit state"
  have dl: "download_audio ?env ''https://example.org/v'' download_folder
              (fst ([], ()) @ [Input prompt], snd ([], ()))
            = (Inr ''inputs/Track.mp3'', ?s1)"
    by (simp add: download_audio_webm example_world_def)
  have ex: "os_path_exists ?env ''inputs/Track.mp3'' (snd ?s1)"
    by (simp add: example_world_def)
  have dk: "detect_key_and_bpm ?env ''inputs/Track.mp3'' ?s1
            = (Inl (Raised ''no backend''),
               ([Input prompt,
                 ExtractInfo ''https://example.org/v'' ''inputs/%(title)s.%(ext)s'',
                 Load ''inputs/Track.mp3''], ()))"
    by (simp add: detect_key_and_bpm_def bind_def)
  show ?thesis
    using main_loop_failure_escapes [OF url_not_exit dl ex, of _ _ "[''exit'']"] dk by simp
qed

text \<open>
  In a world where the separator raises, with a URL and then \<open>exit\<close> as the inputs:
  the exception is the result of the loop, and the trace ends at the call of the separator;
  the second input is never asked for.
\<close>

theorem main_loop_containment_counterexample:
  "main_loop
     (example_world\<lparr>separate_audio_file := \<lambda>device path w. (Inl (Raised ''out of memory''), w)\<rparr>)
     [''https://example.org/v'', ''exit''] ([], ())
   = (Inl (Raised ''out of memory''),
      ([Input prompt, ExtractInfo ''https://example.org/v'' ''inputs/%(title)s.%(ext)s'',
        Load ''inputs/Track.mp3'', Print (Detected ''A minor'' (954 / 10)),
        MakeDirs ''outputs/Track_A minor_95'',
        Print (Splitting ''inputs/Track.mp3''), Separate ''cpu'' ''inputs/Track.mp3''], ()))"
proof -
  let ?env = "example_world\<lparr>separate_audio_file :=
                \<lambda>device path w. (Inl (Raised ''out of memory''), w)\<rparr>"
  let ?s1 = "([Input prompt,
               ExtractInfo ''https://example.org/v'' ''inputs/%(title)s.%(ext)s''], ()) :: unit state"
  let ?s2 = "([Input prompt,
               ExtractInfo ''https://example.org/v'' ''inputs/%(title)s.%(ext)s'',
               Load ''inputs/Track.mp3''], ()) :: unit state"
  have dl: "download_audio ?env ''https://example.org/v'' download_folder ([Input prompt], ())
            = (Inr ''inputs/Track.mp3'', ?s1)"
    by (simp add: download_audio_webm example_world_def)
  have ex: "os_path_exists ?env ''inputs/Track.mp3'' ()"
    by (simp add: example_world_def)
  have ld: "librosa_load ?env ''inputs/Track.mp3'' () = Inr ([0, 1], 22050)"
    by (simp add: example_world_def)
  have dk: "detect_key_and_bpm ?env ''inputs/Track.mp3'' ?s1 = (Inr (''A minor'', 954 / 10), ?s2)"
    using ld example_analysis by (simp add: detect_key_and_bpm_def bind_def)
  have mk: "os_makedirs ?env ''outputs/Track_A minor_95'' () = (Inr (), ())"
    by (simp add: example_world_def)
  have sp: "split_audio ?env ''inputs/Track.mp3'' ''outputs/Track_A minor_95''
              (fst ?s2 @ [Print (Detected ''A minor'' (954 / 10)),
                          MakeDirs ''outputs/Track_A minor_95''], ())
            = (Inl (Raised ''out of memory''),
               (fst ?s2 @ [Print (Detected ''A minor'' (954 / 10)),
                           MakeDirs ''outputs/Track_A minor_95'',
                           Print (Splitting ''inputs/Track.mp3''),
                           Separate ''cpu'' ''inputs/Track.mp3''], ()))"
    by (simp add: split_audio_def Let_def example_world_def)
  show ?thesis
    using url_not_exit dl ex dk mk sp by (simp add: Let_def example_folder)
qed

text \<open>
  Claim C3. The folder name is the title, the key label and the integer part of the tempo,
  joined by underscores; for a tempo that is not negative the integer part is the floor.
  For the title \<open>Song\<close>, the key \<open>D minor\<close> and the tempo 128.7 it is
  \<open>Song_D minor_128\<close>.
\<close>

theorem folder_name_truncates:
  "folder_name ''Song'' ''D minor'' (1287 / 10) = ''Song_D minor_128''
   \<and> (0 \<le> bpm \<longrightarrow>
        folder_name song_title key bpm = song_title @ ''_'' @ key @ ''_'' @ str_int \<lfloor>bpm\<rfloor>)"
proof
  show "folder_name ''Song'' ''D minor'' (1287 / 10) = ''Song_D minor_128''"
    by code_simp
  show "0 \<le> bpm \<longrightarrow>
        folder_name song_title key bpm = song_title @ ''_'' @ key @ ''_'' @ str_int \<lfloor>bpm\<rfloor>"
    by (simp add: folder_name_def py_int_def)
qed

theorem folder_name_truncates_witness:
  "(0 :: real) \<le> 954 / 10
   \<and> folder_name ''Track'' ''A minor'' (954 / 10)
       = ''Track'' @ ''_'' @ ''A minor'' @ ''_'' @ str_int \<lfloor>954 / 10 :: real\<rfloor>
   \<and> folder_name ''Song'' ''D minor'' (1287 / 10) = ''Song_D minor_128''"
  using folder_name_truncates [of "954 / 10" "''Track''" "''A minor''"] by simp

end
